theory Spec2Isabelle
  imports Main "HOL-Library.List_Lexorder" "HOL-Library.Char_ord" "HOL-Library.Multiset"
begin

section \<open>Data model\<close>

text \<open>
  The module \<^verbatim>\<open>supermarket_customer_behavior.data\<close> works on pandas dataframes. A row of
  the raw data has the three columns \<^verbatim>\<open>timestamp\<close>, \<^verbatim>\<open>customer_no\<close> and \<^verbatim>\<open>location\<close>;
  \<^verbatim>\<open>add_entry_exit\<close> adds the columns \<^verbatim>\<open>entry\<close>, \<^verbatim>\<open>exit\<close> and
  \<^verbatim>\<open>customer_count_change\<close>. Timestamps are integers (pandas stores an instant as a
  number of nanoseconds), a difference of timestamps is an integer too; both are
  unbounded here, as are the sums of changes, which stay far from the 64-bit range for
  the dates and the changes -1, 0 and 1 of a tagged table. The customer
  number is an integer for one day and a string for the whole week, so its type is a
  parameter with a linear order (\<^verbatim>\<open>groupby\<close> sorts its keys).
\<close>

record 'c scan =
  timestamp :: int
  customer_no :: 'c
  location :: string

record 'c annotated = "'c scan" +
  entry :: bool
  exit :: bool
  customer_count_change :: int

text \<open>
  A dataframe is the list of its rows in order, each with its row label (the pandas
  index). Row labels are those a loader gives, pairwise different, so that assigning a
  column computed from the frame itself puts every value on the row it was computed from.
\<close>

type_synonym 'r frame = "(nat \<times> 'r) list"

datatype error = IndexError | KeyError

section \<open>Library operations used by the module\<close>

text \<open>
  \<^verbatim>\<open>df.sort_values(by="timestamp")\<close> sorts with the default \<^verbatim>\<open>kind="quicksort"\<close> of pandas,
  which is not a stable sort: the rows come in ascending order of timestamp, and the order
  of rows of equal timestamp is the one the sorting routine happens to produce (numpy's
  quicksort keeps it for up to 16 rows and permutes it from 17 rows on). The routine is
  not part of the repository, so its choice is a parameter: \<open>ties\<close> ranks the rows, rows
  of equal timestamp come in ascending rank, and rows equal in both keep their order.
  Every row keeps its label. With a constant \<open>ties\<close> the sort is the stable one.
\<close>

definition sort_values ::
    "(nat \<times> ('c, 'm) scan_scheme \<Rightarrow> nat) \<Rightarrow> ('c, 'm) scan_scheme frame \<Rightarrow> ('c, 'm) scan_scheme frame" where
  "sort_values ties df = sort_key (\<lambda>p. timestamp (snd p)) (sort_key ties df)"

text \<open>
  \<^verbatim>\<open>Series.duplicated()\<close>: true at every occurrence of a value except the first one.
\<close>

fun duplicated_from :: "'a list \<Rightarrow> 'a list \<Rightarrow> bool list" where
  "duplicated_from seen [] = []"
| "duplicated_from seen (x # xs) = (x \<in> set seen) # duplicated_from (x # seen) xs"

definition duplicated :: "'a list \<Rightarrow> bool list" where
  "duplicated xs = duplicated_from [] xs"

text \<open>\<^verbatim>\<open>df.loc[mask, col] = v\<close>: the column with \<open>v\<close> where the mask holds.\<close>

definition assign_where :: "bool list \<Rightarrow> 'a \<Rightarrow> 'a list \<Rightarrow> 'a list" where
  "assign_where cond v col = map (\<lambda>(m, c). if m then v else c) (zip cond col)"

text \<open>\<^verbatim>\<open>reset_index(drop=True)\<close>: the rows relabelled 0, 1, 2, ...\<close>

definition reset_index :: "'r frame \<Rightarrow> 'r frame" where
  "reset_index df = zip [0 ..< length df] (map snd df)"

text \<open>\<^verbatim>\<open>Series.cumsum()\<close>: the running sums of a column.\<close>

fun cumsum_from :: "int \<Rightarrow> int list \<Rightarrow> int list" where
  "cumsum_from acc [] = []"
| "cumsum_from acc (x # xs) = (acc + x) # cumsum_from (acc + x) xs"

definition cumsum :: "int list \<Rightarrow> int list" where
  "cumsum xs = cumsum_from 0 xs"

text \<open>\<^verbatim>\<open>.iloc[0]\<close>: the first row, IndexError when there is none.\<close>

definition iloc0 :: "'a list \<Rightarrow> error + 'a" where
  "iloc0 xs = (case xs of [] \<Rightarrow> Inl IndexError | x # _ \<Rightarrow> Inr x)"

text \<open>
  \<^verbatim>\<open>groupby(key).apply(f)\<close>: \<open>f\<close> on the group of each key, keys in ascending order; the
  first exception raised by \<open>f\<close> ends the call.
\<close>

fun apply_groups :: "('k \<Rightarrow> error + 'v) \<Rightarrow> 'k list \<Rightarrow> error + ('k \<times> 'v) list" where
  "apply_groups f [] = Inr []"
| "apply_groups f (k # ks) =
     (case f k of
        Inl e \<Rightarrow> Inl e
      | Inr v \<Rightarrow> (case apply_groups f ks of
                    Inl e \<Rightarrow> Inl e
                  | Inr kvs \<Rightarrow> Inr ((k, v) # kvs)))"

text \<open>
  The result of \<^verbatim>\<open>groupby(["timestamp", "location"]).size().unstack(fill_value=0)\<close>: a
  table indexed by the timestamps of the frame in ascending order, with one column per
  location of the frame in ascending order; a cell is the number of rows of that
  timestamp and location, 0 when there is none.
\<close>

record pivot =
  index :: "int list"
  columns :: "(string \<times> nat list) list"

definition size_unstack :: "('c, 'm) scan_scheme frame \<Rightarrow> pivot" where
  "size_unstack df =
     (let rows = map snd df;
          ts = sort (remdups (map timestamp rows));
          locs = sort (remdups (map location rows))
      in \<lparr>index = ts,
          columns = map (\<lambda>l. (l, map (\<lambda>t. length (filter (\<lambda>r. timestamp r = t \<and> location r = l) rows)) ts)) locs\<rparr>)"

text \<open>
  \<^verbatim>\<open>.loc[:, labels]\<close> with a list of labels: the columns of these labels in the order of
  the list, KeyError when a label is not a column (pandas 1.0 and later; when no label
  of the list is a column, every version of pandas raises KeyError).
\<close>

fun select_columns :: "(string \<times> 'a) list \<Rightarrow> string list \<Rightarrow> error + (string \<times> 'a) list" where
  "select_columns cols [] = Inr []"
| "select_columns cols (l # ls) =
     (case map_of cols l of
        None \<Rightarrow> Inl KeyError
      | Some col \<Rightarrow> (case select_columns cols ls of
                      Inl e \<Rightarrow> Inl e
                    | Inr sel \<Rightarrow> Inr ((l, col) # sel)))"

section \<open>The functions of the module\<close>

text \<open>
  The Python functions sort their argument in place and add columns to it; the model
  returns the resulting frame and leaves the update of the caller's frame out, since no
  statement below reads the argument after the call. The two functions that sort take
  the order of equal timestamps of their sort as first argument.
\<close>

text \<open>
  \<^verbatim>\<open>add_entry_exit\<close>: sort by timestamp; \<^verbatim>\<open>entry\<close> is the negation of
  \<^verbatim>\<open>customer_no.duplicated()\<close>; \<^verbatim>\<open>exit\<close> is \<^verbatim>\<open>location == "checkout"\<close>;
  \<^verbatim>\<open>customer_count_change\<close> is 0, then 1 where \<^verbatim>\<open>entry\<close>, then -1 where \<^verbatim>\<open>exit\<close>.
\<close>

definition add_entry_exit :: "(nat \<times> 'c scan \<Rightarrow> nat) \<Rightarrow> 'c scan frame \<Rightarrow> 'c annotated frame" where
  "add_entry_exit ties df =
     (let df1 = sort_values ties df;
          entry_col = map Not (duplicated (map (\<lambda>p. customer_no (snd p)) df1));
          exit_col = map (\<lambda>p. location (snd p) = ''checkout'') df1;
          change0 = replicate (length df1) (0 :: int);
          change1 = assign_where entry_col 1 change0;
          change2 = assign_where exit_col (- 1) change1
      in map (\<lambda>((i, r), e, x, c). (i, scan.extend r (annotated.fields e x c)))
           (zip df1 (zip entry_col (zip exit_col change2))))"

text \<open>
  \<^verbatim>\<open>filter_non_exiting_customers\<close>: sort by timestamp; \<^verbatim>\<open>last_appearance\<close> is the
  negation of \<^verbatim>\<open>duplicated()\<close> on the customer numbers read from the last row to the
  first; the invalid customers are those of the rows with \<^verbatim>\<open>last_appearance\<close> and not
  \<^verbatim>\<open>exit\<close>; the result is the rows of the other customers, relabelled.
\<close>

definition filter_non_exiting_customers ::
    "(nat \<times> 'c annotated \<Rightarrow> nat) \<Rightarrow> 'c annotated frame \<Rightarrow> 'c annotated frame" where
  "filter_non_exiting_customers ties df =
     (let df1 = sort_values ties df;
          last_appearance = rev (map Not (duplicated (rev (map (\<lambda>p. customer_no (snd p)) df1))));
          invalid_customers =
            map (\<lambda>(p, la). customer_no (snd p))
              (filter (\<lambda>(p, la). la \<and> \<not> exit (snd p)) (zip df1 last_appearance))
      in reset_index (filter (\<lambda>p. customer_no (snd p) \<notin> set invalid_customers) df1))"

text \<open>
  \<^verbatim>\<open>customers_by_location\<close>: the table of sizes by timestamp and location, restricted to
  the requested locations. The requested locations are a list of strings, which the
  first statement of the function leaves as it is (it reads \<^verbatim>\<open>collections.Iterable\<close>,
  which exists up to Python 3.9).
\<close>

definition customers_by_location :: "('c, 'm) scan_scheme frame \<Rightarrow> string list \<Rightarrow> error + pivot" where
  "customers_by_location df locations =
     (let customers_by_location = size_unstack df
      in case select_columns (columns customers_by_location) locations of
           Inl e \<Rightarrow> Inl e
         | Inr sel \<Rightarrow> Inr \<lparr>index = index customers_by_location, columns = sel\<rparr>)"

text \<open>
  \<^verbatim>\<open>compute_customer_time_in_store\<close>: for the rows of each customer, the timestamp of the
  first row with \<^verbatim>\<open>exit\<close> minus the timestamp of the first row with \<^verbatim>\<open>entry\<close>.
\<close>

definition time_in_store :: "'c annotated list \<Rightarrow> error + int" where
  "time_in_store customer =
     (case iloc0 (filter exit customer) of
        Inl e \<Rightarrow> Inl e
      | Inr x \<Rightarrow> (case iloc0 (filter entry customer) of
                    Inl e \<Rightarrow> Inl e
                  | Inr n \<Rightarrow> Inr (timestamp x - timestamp n)))"

definition compute_customer_time_in_store ::
    "('c :: linorder) annotated frame \<Rightarrow> error + ('c \<times> int) list" where
  "compute_customer_time_in_store df =
     apply_groups (\<lambda>c. time_in_store (filter (\<lambda>r. customer_no r = c) (map snd df)))
       (sort (remdups (map (\<lambda>p. customer_no (snd p)) df)))"

text \<open>
  \<^verbatim>\<open>compute_customer_total\<close>: the running sum of \<^verbatim>\<open>customer_count_change\<close> in row order,
  then for each timestamp (in ascending order) the value on the last row of that
  timestamp.
\<close>

definition compute_customer_total :: "'c annotated frame \<Rightarrow> (int \<times> int) list" where
  "compute_customer_total df =
     (let customer_total = cumsum (map (\<lambda>p. customer_count_change (snd p)) df);
          cols = zip (map (\<lambda>p. timestamp (snd p)) df) customer_total
      in map (\<lambda>t. (t, last (map snd (filter (\<lambda>q. fst q = t) cols))))
           (sort (remdups (map fst cols))))"

section \<open>Notions used in the statements and proofs\<close>

text \<open>The rows of one customer, in the order of the frame.\<close>

definition rows_of :: "'c \<Rightarrow> ('c, 'm) scan_scheme frame \<Rightarrow> ('c, 'm) scan_scheme frame" where
  "rows_of c df = filter (\<lambda>p. customer_no (snd p) = c) df"

text \<open>
  The tagging seen row by row: a row is tagged from the customers of the rows before it.
\<close>

definition tag_row :: "'c list \<Rightarrow> 'c scan \<Rightarrow> 'c annotated" where
  "tag_row seen r =
     scan.extend r (annotated.fields (customer_no r \<notin> set seen) (location r = ''checkout'')
       (if location r = ''checkout'' then - 1 else if customer_no r \<notin> set seen then 1 else 0))"

fun tag_from :: "'c list \<Rightarrow> 'c scan frame \<Rightarrow> 'c annotated frame" where
  "tag_from seen [] = []"
| "tag_from seen (p # ps) =
     (fst p, tag_row seen (snd p)) # tag_from (customer_no (snd p) # seen) ps"

text \<open>
  The row of a customer with the minimum timestamp among the rows of that customer, the
  first one in the order of the frame when several rows have it.
\<close>

definition first_minimal_row :: "'c \<Rightarrow> 'c scan frame \<Rightarrow> nat \<times> 'c scan" where
  "first_minimal_row c df =
     (let g = rows_of c df;
          m = Min (set (map (\<lambda>p. timestamp (snd p)) g))
      in hd (filter (\<lambda>p. timestamp (snd p) = m) g))"

text \<open>A tagged frame without the three added columns.\<close>

definition untag :: "'c annotated frame \<Rightarrow> 'c scan frame" where
  "untag df = map (\<lambda>p. (fst p, scan.truncate (snd p))) df"

text \<open>
  The order in which numpy's quicksort, the routine behind the default sort of pandas,
  returns 17 rows of equal timestamp: one partition step around the middle row (the
  median of the first, middle and last row), which swaps the rows pairwise from both
  ends, then an insertion sort of each part, which leaves equal rows in place. Frames of
  another length are not used with it.
\<close>

definition quicksort17 :: "'a list \<Rightarrow> 'a list" where
  "quicksort17 xs =
     (if length xs = 17
      then map (\<lambda>i. xs ! i) [0, 14, 13, 12, 11, 10, 9, 15, 8, 6, 5, 4, 3, 2, 1, 7, 16]
      else xs)"

text \<open>The rank of a row in a given order of the rows: its position there.\<close>

definition rank :: "'a list \<Rightarrow> 'a \<Rightarrow> nat" where
  "rank ys p = length (takeWhile (\<lambda>q. q \<noteq> p) ys)"

text \<open>The order of equal timestamps that numpy's quicksort gives a frame of 17 rows.\<close>

definition quicksort17_ties :: "'a list \<Rightarrow> 'a \<Rightarrow> nat" where
  "quicksort17_ties df = rank (quicksort17 df)"

text \<open>The order of equal timestamps of a stable sort.\<close>

definition keep_order :: "'a \<Rightarrow> nat" where
  "keep_order = (\<lambda>p. 0)"

text \<open>A small table of scans, not sorted, with two rows of equal timestamp.\<close>

definition ex_scans :: "nat scan frame" where
  "ex_scans =
     [(0, \<lparr>timestamp = 7, customer_no = 1, location = ''dairy''\<rparr>),
      (1, \<lparr>timestamp = 3, customer_no = 2, location = ''fruit''\<rparr>),
      (2, \<lparr>timestamp = 5, customer_no = 1, location = ''spices''\<rparr>),
      (3, \<lparr>timestamp = 5, customer_no = 1, location = ''drinks''\<rparr>),
      (4, \<lparr>timestamp = 9, customer_no = 1, location = ''checkout''\<rparr>)]"

text \<open>
  The temporally last row of a customer: the row with the maximum timestamp among the
  rows of that customer, the last one in the order of the frame when several rows have it.
\<close>

definition temporally_last_row :: "'c \<Rightarrow> 'c annotated frame \<Rightarrow> nat \<times> 'c annotated" where
  "temporally_last_row c df =
     (let g = rows_of c df;
          m = Max (set (map (\<lambda>p. timestamp (snd p)) g))
      in last (filter (\<lambda>p. timestamp (snd p) = m) g))"

text \<open>Whether the last row of a customer, in the order of the rows, is an exit.\<close>

definition last_row_exits :: "'c \<Rightarrow> 'c annotated list \<Rightarrow> bool" where
  "last_row_exits c rows = exit (last (filter (\<lambda>r. customer_no r = c) rows))"

text \<open>
  The rows of maximum timestamp of a customer.
\<close>

definition last_rows :: "'c \<Rightarrow> 'c annotated frame \<Rightarrow> 'c annotated list" where
  "last_rows c df =
     (let g = map snd (rows_of c df);
          m = Max (set (map timestamp g))
      in filter (\<lambda>r. timestamp r = m) g)"

text \<open>
  A table in which no customer has, among its rows of maximum timestamp, both a row that
  is an exit and a row that is not.
\<close>

definition exit_decided :: "'c annotated frame \<Rightarrow> bool" where
  "exit_decided df =
     list_all (\<lambda>c. list_all exit (last_rows c df) \<or> list_all (\<lambda>r. \<not> exit r) (last_rows c df))
       (map (\<lambda>p. customer_no (snd p)) df)"

text \<open>The tagging of the table \<open>ex_scans\<close>.\<close>

definition ex_tagged :: "nat annotated frame" where
  "ex_tagged =
     [(1, \<lparr>timestamp = 3, customer_no = 2, location = ''fruit'', entry = True, exit = False,
           customer_count_change = 1\<rparr>),
      (2, \<lparr>timestamp = 5, customer_no = 1, location = ''spices'', entry = True, exit = False,
           customer_count_change = 1\<rparr>),
      (3, \<lparr>timestamp = 5, customer_no = 1, location = ''drinks'', entry = False, exit = False,
           customer_count_change = 0\<rparr>),
      (0, \<lparr>timestamp = 7, customer_no = 1, location = ''dairy'', entry = False, exit = False,
           customer_count_change = 0\<rparr>),
      (4, \<lparr>timestamp = 9, customer_no = 1, location = ''checkout'', entry = False, exit = True,
           customer_count_change = - 1\<rparr>)]"


text \<open>A table where customer 2 appears once, at the checkout.\<close>

definition ex_single :: "nat scan frame" where
  "ex_single =
     [(0, \<lparr>timestamp = 1, customer_no = 1, location = ''dairy''\<rparr>),
      (1, \<lparr>timestamp = 2, customer_no = 2, location = ''checkout''\<rparr>),
      (2, \<lparr>timestamp = 3, customer_no = 1, location = ''checkout''\<rparr>)]"

text \<open>
  Whether a customer has a row with a given flag, and the earliest timestamp of the rows
  of a customer with that flag.
\<close>

definition has_row :: "('c annotated \<Rightarrow> bool) \<Rightarrow> 'c \<Rightarrow> 'c annotated frame \<Rightarrow> bool" where
  "has_row flag c df = list_ex (\<lambda>r. customer_no r = c \<and> flag r) (map snd df)"

definition earliest :: "('c annotated \<Rightarrow> bool) \<Rightarrow> 'c \<Rightarrow> 'c annotated frame \<Rightarrow> int" where
  "earliest flag c df =
     Min (set (map timestamp (filter (\<lambda>r. customer_no r = c \<and> flag r) (map snd df))))"

text \<open>A table with one row, at the dairy.\<close>

definition ex_dairy :: "nat scan frame" where
  "ex_dairy = [(0, \<lparr>timestamp = 0, customer_no = 1, location = ''dairy''\<rparr>)]"

text \<open>The number of rows of a frame with a given timestamp and location.\<close>

definition count_at :: "('c, 'm) scan_scheme frame \<Rightarrow> int \<Rightarrow> string \<Rightarrow> nat" where
  "count_at df t l = length (filter (\<lambda>p. timestamp (snd p) = t \<and> location (snd p) = l) df)"

text \<open>A table with one row, at the checkout.\<close>

definition ex_checkout :: "nat scan frame" where
  "ex_checkout = [(0, \<lparr>timestamp = 0, customer_no = 1, location = ''checkout''\<rparr>)]"

text \<open>The sum of \<^verbatim>\<open>customer_count_change\<close> over all rows.\<close>

definition total_change :: "'c annotated frame \<Rightarrow> int" where
  "total_change df = sum_list (map (\<lambda>p. customer_count_change (snd p)) df)"

text \<open>A table that contains only customers who both entered and exited.\<close>

definition all_entered_and_exited :: "'c annotated frame \<Rightarrow> bool" where
  "all_entered_and_exited df =
     list_all (\<lambda>c. has_row entry c df \<and> has_row exit c df) (map (\<lambda>p. customer_no (snd p)) df)"

text \<open>
  A table where every customer has exactly one exit row and no row is both an entry and
  an exit.
\<close>

definition exits_once_after_entry :: "'c annotated frame \<Rightarrow> bool" where
  "exits_once_after_entry df =
     (list_all (\<lambda>c. length (filter (\<lambda>p. exit (snd p)) (rows_of c df)) = 1)
        (map (\<lambda>p. customer_no (snd p)) df)
      \<and> list_all (\<lambda>p. \<not> (entry (snd p) \<and> exit (snd p))) df)"

text \<open>Two complete visits: customer 1 and then customer 2, both ending at the checkout.\<close>

definition ex_visits :: "nat scan frame" where
  "ex_visits =
     [(0, \<lparr>timestamp = 1, customer_no = 1, location = ''dairy''\<rparr>),
      (1, \<lparr>timestamp = 2, customer_no = 1, location = ''checkout''\<rparr>),
      (2, \<lparr>timestamp = 3, customer_no = 2, location = ''dairy''\<rparr>),
      (3, \<lparr>timestamp = 4, customer_no = 2, location = ''spices''\<rparr>),
      (4, \<lparr>timestamp = 5, customer_no = 2, location = ''checkout''\<rparr>)]"

text \<open>
  Seventeen scans of the same minute. Customer 1 is seen at the dairy (row 1) and then
  at the checkout (row 14), every other customer once, at the checkout.
\<close>

definition ex17 :: "nat scan frame" where
  "ex17 =
     map (\<lambda>k. (k, \<lparr>timestamp = 0, customer_no = (if k = 1 \<or> k = 14 then 1 else k + 10),
                     location = (if k = 1 then ''dairy'' else ''checkout'')\<rparr>))
       [0 ..< 17]"

text \<open>The tagging of \<open>ex17\<close> with the order of numpy's quicksort, and its filtering.\<close>

definition ex17_tagged :: "nat annotated frame" where
  "ex17_tagged = add_entry_exit (quicksort17_ties ex17) ex17"

definition ex17_filtered :: "nat annotated frame" where
  "ex17_filtered = filter_non_exiting_customers (quicksort17_ties ex17_tagged) ex17_tagged"

section \<open>The sort\<close>

lemma sort_values_keep_order:
  "sort_values keep_order df = sort_key (\<lambda>p. timestamp (snd p)) df"
  by (simp add: sort_values_def keep_order_def sort_key_const)

lemma set_sort_values [simp]: "set (sort_values ties df) = set df"
  by (simp add: sort_values_def)

lemma mset_sort_values [simp]: "mset (sort_values ties df) = mset df"
  by (simp add: sort_values_def)

lemma length_sort_values [simp]: "length (sort_values ties df) = length df"
  by (simp add: sort_values_def)

lemma sorted_sort_values [simp]: "sorted (map (\<lambda>p. timestamp (snd p)) (sort_values ties df))"
  by (simp add: sort_values_def)

lemma rows_of_sort_values: "rows_of c (sort_values ties df) = sort_values ties (rows_of c df)"
  by (simp add: rows_of_def sort_values_def filter_sort)

lemma sort_values_single [simp]: "sort_values ties [p] = [p]"
  by (simp add: sort_values_def)

text \<open>
  Every ascending order of a frame of pairwise different rows is the result of the sort
  for some order of the equal timestamps, namely the rank of the rows in that order.
\<close>

lemma rank_map: "distinct ys \<Longrightarrow> map (rank ys) ys = [0 ..< length ys]"
proof (induction ys rule: rev_induct)
  case Nil
  show ?case by simp
next
  case (snoc y ys)
  then have d: "distinct ys" and n: "y \<notin> set ys" by simp_all
  have a: "\<And>p. p \<in> set ys \<Longrightarrow> rank (ys @ [y]) p = rank ys p"
    by (simp add: rank_def takeWhile_append1)
  have "takeWhile (\<lambda>q. q \<noteq> y) (ys @ [y]) = ys @ takeWhile (\<lambda>q. q \<noteq> y) [y]"
    by (rule takeWhile_append2) (use n in auto)
  then have b: "rank (ys @ [y]) y = length ys"
    by (simp add: rank_def)
  from snoc.IH [OF d] a b show ?case
    by (simp cong: map_cong)
qed

lemma filter_eq_distinct: "distinct ys \<Longrightarrow> k \<in> set ys \<Longrightarrow> filter (\<lambda>x. k = x) ys = [k]"
  by (induction ys) (auto simp: filter_empty_conv)

lemma sort_key_rank:
  assumes "distinct ys" and "mset ys = mset xs"
  shows "sort_key (rank ys) xs = ys"
proof (rule properties_for_sort_key)
  show "mset ys = mset xs" by (rule assms(2))
  show "sorted (map (rank ys) ys)"
    by (simp add: rank_map [OF assms(1)])
  fix k assume k: "k \<in> set ys"
  from assms have dx: "distinct xs"
    by (metis mset_eq_imp_distinct_iff)
  have inj: "\<And>p q. p \<in> set ys \<Longrightarrow> q \<in> set ys \<Longrightarrow> rank ys p = rank ys q \<Longrightarrow> p = q"
  proof -
    fix p q assume "p \<in> set ys" "q \<in> set ys" "rank ys p = rank ys q"
    moreover have "inj_on (rank ys) (set ys)"
      using rank_map [OF assms(1)] distinct_upt
      by (metis distinct_map)
    ultimately show "p = q" by (auto dest: inj_onD)
  qed
  have sx: "set xs = set ys"
    using assms(2) by (metis mset_eq_setD)
  have "filter (\<lambda>x. rank ys k = rank ys x) ys = filter (\<lambda>x. k = x) ys"
    by (rule filter_cong) (use inj k in auto)
  moreover have "filter (\<lambda>x. rank ys k = rank ys x) xs = filter (\<lambda>x. k = x) xs"
    by (rule filter_cong) (use inj k sx in auto)
  moreover have "filter (\<lambda>x. k = x) ys = [k]"
    using assms(1) k by (rule filter_eq_distinct)
  moreover have "filter (\<lambda>x. k = x) xs = [k]"
    using dx k sx by (simp add: filter_eq_distinct)
  ultimately show "filter (\<lambda>x. rank ys k = rank ys x) ys = filter (\<lambda>x. rank ys k = rank ys x) xs"
    by simp
qed

lemma sort_values_rank:
  assumes "distinct ys" and "mset ys = mset df" and "sorted (map (\<lambda>p. timestamp (snd p)) ys)"
  shows "sort_values (rank ys) df = ys"
  by (simp add: sort_values_def sort_key_rank [OF assms(1,2)] sort_key_id_if_sorted [OF assms(3)])

text \<open>On the table \<open>ex17\<close> the sort returns the rows in the order of numpy's quicksort.\<close>

lemma sort_values_ex17:
  "map fst (sort_values (quicksort17_ties ex17) ex17)
     = [0, 14, 13, 12, 11, 10, 9, 15, 8, 6, 5, 4, 3, 2, 1, 7, 16]"
  unfolding quicksort17_ties_def by code_simp

section \<open>The tagging, row by row\<close>

lemma tag_columns:
  "map (\<lambda>((i, r), e, x, c). (i, scan.extend r (annotated.fields e x c)))
     (zip ps (zip (map Not (duplicated_from seen (map (\<lambda>p. customer_no (snd p)) ps)))
        (zip (map (\<lambda>p. location (snd p) = ''checkout'') ps)
           (assign_where (map (\<lambda>p. location (snd p) = ''checkout'') ps) (- 1)
              (assign_where (map Not (duplicated_from seen (map (\<lambda>p. customer_no (snd p)) ps))) 1
                 (replicate (length ps) 0))))))
   = tag_from seen ps"
  by (induction ps arbitrary: seen) (auto simp: assign_where_def tag_row_def)

lemma add_entry_exit_rows: "add_entry_exit ties df = tag_from [] (sort_values ties df)"
  unfolding add_entry_exit_def Let_def duplicated_def by (rule tag_columns)

lemma tag_from_change:
  "(i, r) \<in> set (tag_from seen ps) \<Longrightarrow>
     customer_count_change r = (if exit r then - 1 else if entry r then 1 else 0)
     \<and> exit r = (location r = ''checkout'')"
  by (induction ps arbitrary: seen) (auto simp: tag_row_def scan.extend_def annotated.fields_def)

section \<open>Entry, exit and change of a row\<close>

text \<open>
  C9. In the output of \<^verbatim>\<open>add_entry_exit\<close>, a row with \<^verbatim>\<open>entry\<close> and \<^verbatim>\<open>exit\<close> both true
  (the first appearance of its customer, at the checkout) has the change -1: the
  assignment for \<^verbatim>\<open>exit\<close> comes last and overrides the one for \<^verbatim>\<open>entry\<close>. This holds
  for every order of equal timestamps.
\<close>

theorem entry_exit_row_change:
  "(i, r) \<in> set (add_entry_exit ties df) \<Longrightarrow> entry r \<Longrightarrow> exit r \<Longrightarrow> customer_count_change r = - 1"
  using tag_from_change [of i r "[]" "sort_values ties df"] by (simp add: add_entry_exit_rows)

theorem entry_exit_row_change_witness:
  "(1, \<lparr>timestamp = 3, customer_no = 2 :: nat, location = ''checkout'', entry = True, exit = True,
        customer_count_change = - 1\<rparr>)
     \<in> set (add_entry_exit keep_order
         [(0, \<lparr>timestamp = 5, customer_no = 1, location = ''dairy''\<rparr>),
          (1, \<lparr>timestamp = 3, customer_no = 2, location = ''checkout''\<rparr>)])
   \<and> customer_count_change
       \<lparr>timestamp = 3, customer_no = 2 :: nat, location = ''checkout'', entry = True, exit = True,
        customer_count_change = - 1\<rparr> = - 1"
proof -
  let ?df = "[(0, \<lparr>timestamp = 5, customer_no = 1 :: nat, location = ''dairy''\<rparr>),
              (1, \<lparr>timestamp = 3, customer_no = 2, location = ''checkout''\<rparr>)]"
  let ?r = "\<lparr>timestamp = 3, customer_no = 2 :: nat, location = ''checkout'', entry = True,
             exit = True, customer_count_change = - 1\<rparr>"
  have h: "(1, ?r) \<in> set (add_entry_exit keep_order ?df)"
    by (simp add: add_entry_exit_rows sort_values_keep_order tag_row_def
        scan.extend_def annotated.fields_def)
  from entry_exit_row_change [OF h] h show ?thesis by simp
qed

lemma truncate_tag_row [simp]: "scan.truncate (tag_row seen r) = r"
  by (simp add: tag_row_def scan.truncate_def scan.extend_def)

lemma customer_no_tag_row [simp]: "customer_no (tag_row seen r) = customer_no r"
  by (simp add: tag_row_def scan.extend_def)

lemma entry_tag_row [simp]: "entry (tag_row seen r) = (customer_no r \<notin> set seen)"
  by (simp add: tag_row_def scan.extend_def annotated.fields_def)

lemma rows_of_Nil [simp]: "rows_of c [] = []"
  by (simp add: rows_of_def)

lemma rows_of_Cons [simp]:
  "rows_of c (p # ps) = (if customer_no (snd p) = c then p # rows_of c ps else rows_of c ps)"
  by (simp add: rows_of_def)

lemma untag_Nil [simp]: "untag [] = []"
  by (simp add: untag_def)

lemma untag_Cons [simp]: "untag (p # ps) = (fst p, scan.truncate (snd p)) # untag ps"
  by (simp add: untag_def)

lemma entry_rows_tag_from:
  "untag (filter (\<lambda>p. entry (snd p)) (rows_of c (tag_from seen ps)))
     = (if c \<in> set seen then [] else take 1 (rows_of c ps))"
  by (induction ps arbitrary: seen) simp_all

lemma hd_sort_values:
  assumes "df \<noteq> []"
  shows "hd (sort_values ties df) \<in> set df"
    and "\<And>q. q \<in> set df \<Longrightarrow> timestamp (snd (hd (sort_values ties df))) \<le> timestamp (snd q)"
proof -
  from assms have ne: "sort_values ties df \<noteq> []"
    by (metis length_sort_values length_0_conv)
  then obtain y ys where s: "sort_values ties df = y # ys"
    by (cases "sort_values ties df") auto
  from ne have "hd (sort_values ties df) \<in> set (sort_values ties df)"
    by (rule hd_in_set)
  then show "hd (sort_values ties df) \<in> set df"
    by simp
  fix q assume "q \<in> set df"
  then have "q \<in> set (y # ys)"
    using set_sort_values [of ties df] by (simp add: s)
  moreover have "sorted (map (\<lambda>p. timestamp (snd p)) (y # ys))"
    using sorted_sort_values [of ties df] by (simp add: s)
  ultimately show "timestamp (snd (hd (sort_values ties df))) \<le> timestamp (snd q)"
    by (auto simp: s)
qed

lemma entry_rows_add_entry_exit:
  "untag (filter (\<lambda>p. entry (snd p)) (rows_of c (add_entry_exit ties df)))
     = take 1 (sort_values ties (rows_of c df))"
  by (simp add: add_entry_exit_rows entry_rows_tag_from rows_of_sort_values)

lemma tagged_ex17:
  "ex17_tagged =
     map (\<lambda>k. (k, \<lparr>timestamp = 0, customer_no = (if k = 1 \<or> k = 14 then 1 else k + 10),
                     location = (if k = 1 then ''dairy'' else ''checkout''),
                     entry = (k \<noteq> 1), exit = (k \<noteq> 1),
                     customer_count_change = (if k = 1 then 0 else - 1)\<rparr>))
       [0, 14, 13, 12, 11, 10, 9, 15, 8, 6, 5, 4, 3, 2, 1, 7, 16]"
  unfolding ex17_tagged_def quicksort17_ties_def by code_simp

text \<open>
  C1, as stated, fails. In \<open>ex17\<close> the first row of customer 1 in the order of the table is
  row 1, at the dairy; the sort returns row 14 before row 1, and the row tagged as entry
  is row 14, at the checkout.
\<close>

theorem entry_tie_break_counterexample:
  "first_minimal_row 1 ex17 = (1, \<lparr>timestamp = 0, customer_no = 1, location = ''dairy''\<rparr>)
   \<and> untag (filter (\<lambda>p. entry (snd p)) (rows_of 1 (add_entry_exit (quicksort17_ties ex17) ex17)))
       = [(14, \<lparr>timestamp = 0, customer_no = 1, location = ''checkout''\<rparr>)]
   \<and> untag (filter (\<lambda>p. entry (snd p)) (rows_of 1 (add_entry_exit (quicksort17_ties ex17) ex17)))
       \<noteq> [first_minimal_row 1 ex17]"
proof -
  have a: "first_minimal_row 1 ex17 = (1, \<lparr>timestamp = 0, customer_no = 1, location = ''dairy''\<rparr>)"
    by code_simp
  have b: "untag (filter (\<lambda>p. entry (snd p)) (rows_of 1 ex17_tagged))
             = [(14, \<lparr>timestamp = 0, customer_no = 1, location = ''checkout''\<rparr>)]"
    unfolding tagged_ex17 by (simp add: rows_of_def untag_def scan.truncate_def)
  from a b show ?thesis
    by (simp add: ex17_tagged_def)
qed

text \<open>
  C1, amended. For every table of scans, every order of equal timestamps and every
  customer of the table, the output of \<^verbatim>\<open>add_entry_exit\<close> has exactly one row of that
  customer with \<^verbatim>\<open>entry\<close> true; it is a row of the customer with the minimum timestamp
  among the rows of that customer. Which of several rows of that timestamp it is depends
  on the sort.
\<close>

theorem one_entry_row_per_customer:
  assumes "c \<in> set (map (\<lambda>p. customer_no (snd p)) df)"
  shows "\<exists>p. untag (filter (\<lambda>p. entry (snd p)) (rows_of c (add_entry_exit ties df))) = [p]
           \<and> p \<in> set (rows_of c df)
           \<and> (\<forall>q \<in> set (rows_of c df). timestamp (snd p) \<le> timestamp (snd q))"
proof -
  from assms have ne: "rows_of c df \<noteq> []"
    by (auto simp: rows_of_def filter_empty_conv)
  then have "sort_values ties (rows_of c df) \<noteq> []"
    by (metis length_sort_values length_0_conv)
  then have "take 1 (sort_values ties (rows_of c df)) = [hd (sort_values ties (rows_of c df))]"
    by (cases "sort_values ties (rows_of c df)") simp_all
  with hd_sort_values [OF ne, where ties = ties] show ?thesis
    by (auto simp: entry_rows_add_entry_exit)
qed

theorem one_entry_row_per_customer_witness:
  "1 \<in> set (map (\<lambda>p. customer_no (snd p)) ex_scans)
   \<and> (\<exists>p. untag (filter (\<lambda>p. entry (snd p)) (rows_of 1 (add_entry_exit keep_order ex_scans))) = [p]
           \<and> p \<in> set (rows_of 1 ex_scans)
           \<and> (\<forall>q \<in> set (rows_of 1 ex_scans). timestamp (snd p) \<le> timestamp (snd q)))
   \<and> untag (filter (\<lambda>p. entry (snd p)) (rows_of 1 (add_entry_exit keep_order ex_scans)))
       = [(2, \<lparr>timestamp = 5, customer_no = 1, location = ''spices''\<rparr>)]"
proof -
  have h: "1 \<in> set (map (\<lambda>p. customer_no (snd p)) ex_scans)"
    by (simp add: ex_scans_def)
  have v: "untag (filter (\<lambda>p. entry (snd p)) (rows_of 1 (add_entry_exit keep_order ex_scans)))
             = [(2, \<lparr>timestamp = 5, customer_no = 1, location = ''spices''\<rparr>)]"
    by (simp add: entry_rows_add_entry_exit sort_values_keep_order ex_scans_def)
  from one_entry_row_per_customer [OF h, of keep_order] h v show ?thesis
    by blast
qed

section \<open>The filter of customers that do not exit\<close>

lemma length_duplicated_from [simp]: "length (duplicated_from seen xs) = length xs"
  by (induction xs arbitrary: seen) simp_all

lemma rows_of_append [simp]: "rows_of c (ps @ qs) = rows_of c ps @ rows_of c qs"
  by (simp add: rows_of_def)

lemma map_snd_rows_of: "map snd (rows_of c df) = filter (\<lambda>r. customer_no r = c) (map snd df)"
  by (simp add: rows_of_def filter_map comp_def)

lemma rows_of_nonempty: "p \<in> set df \<Longrightarrow> rows_of (customer_no (snd p)) df \<noteq> []"
  by (auto simp: rows_of_def filter_empty_conv)

lemma invalid_customers_set:
  "set (map (\<lambda>(p, la). customer_no (snd p))
        (filter (\<lambda>(p, la). la \<and> \<not> exit (snd p))
           (zip ps (rev (map Not (duplicated_from seen (rev (map (\<lambda>p. customer_no (snd p)) ps))))))))
   = {c. c \<notin> set seen \<and> rows_of c ps \<noteq> [] \<and> \<not> exit (snd (last (rows_of c ps)))}"
proof (induction ps arbitrary: seen rule: rev_induct)
  case Nil
  show ?case by simp
next
  case (snoc p ps)
  let ?c = "customer_no (snd p)"
  let ?la = "rev (map Not (duplicated_from (?c # seen) (rev (map (\<lambda>p. customer_no (snd p)) ps))))"
  have z: "zip (ps @ [p]) (?la @ [?c \<notin> set seen]) = zip ps ?la @ [(p, ?c \<notin> set seen)]"
    by simp
  have "set (map (\<lambda>(p, la). customer_no (snd p))
          (filter (\<lambda>(p, la). la \<and> \<not> exit (snd p))
             (zip (ps @ [p])
                (rev (map Not (duplicated_from seen (rev (map (\<lambda>p. customer_no (snd p)) (ps @ [p])))))))))
        = {c. c \<notin> set (?c # seen) \<and> rows_of c ps \<noteq> [] \<and> \<not> exit (snd (last (rows_of c ps)))}
          \<union> (if ?c \<notin> set seen \<and> \<not> exit (snd p) then {?c} else {})"
    using snoc.IH [of "?c # seen"] by (simp add: z)
  also have "\<dots> = {c. c \<notin> set seen \<and> rows_of c (ps @ [p]) \<noteq> []
                       \<and> \<not> exit (snd (last (rows_of c (ps @ [p]))))}"
    by auto
  finally show ?case .
qed

lemma map_snd_reset_index [simp]: "map snd (reset_index df) = map snd df"
  by (simp add: reset_index_def)

lemma map_fst_reset_index [simp]: "map fst (reset_index df) = [0 ..< length df]"
  by (simp add: reset_index_def)

lemma length_reset_index [simp]: "length (reset_index df) = length df"
  by (simp add: reset_index_def)

lemma reset_index_cong: "map snd df = map snd df' \<Longrightarrow> reset_index df = reset_index df'"
  by (metis reset_index_def length_map)

lemma last_row_exits_rows_of:
  "rows_of c df \<noteq> [] \<Longrightarrow> exit (snd (last (rows_of c df))) = last_row_exits c (map snd df)"
  by (simp add: last_row_exits_def last_map flip: map_snd_rows_of)

lemma filter_non_exiting_customers_keeps:
  "filter_non_exiting_customers ties df =
     reset_index (filter (\<lambda>p. last_row_exits (customer_no (snd p)) (map snd (sort_values ties df)))
                    (sort_values ties df))"
proof -
  have "filter (\<lambda>p. customer_no (snd p) \<notin>
                  {c. rows_of c (sort_values ties df) \<noteq> []
                      \<and> \<not> exit (snd (last (rows_of c (sort_values ties df))))})
          (sort_values ties df)
        = filter (\<lambda>p. last_row_exits (customer_no (snd p)) (map snd (sort_values ties df)))
            (sort_values ties df)"
    by (rule filter_cong) (auto simp: rows_of_nonempty last_row_exits_rows_of)
  then show ?thesis
    unfolding filter_non_exiting_customers_def Let_def duplicated_def
    using invalid_customers_set [of "sort_values ties df" "[]"] by simp
qed

lemma rows_filter_non_exiting_customers:
  "map snd (filter_non_exiting_customers ties df) =
     filter (\<lambda>r. last_row_exits (customer_no r) (map snd (sort_values ties df)))
       (map snd (sort_values ties df))"
  by (simp add: filter_non_exiting_customers_keeps filter_map comp_def)

lemma labels_filter_non_exiting_customers:
  "map fst (filter_non_exiting_customers ties df) = [0 ..< length (filter_non_exiting_customers ties df)]"
  by (simp add: filter_non_exiting_customers_keeps)

lemma sorted_filter_non_exiting_customers:
  "sorted (map (\<lambda>p. timestamp (snd p)) (filter_non_exiting_customers ties df))"
proof -
  have "map (\<lambda>p. timestamp (snd p)) (filter_non_exiting_customers ties df)
          = map timestamp (map snd (filter_non_exiting_customers ties df))"
    by (simp add: comp_def)
  also have "\<dots> = map (\<lambda>p. timestamp (snd p))
        (filter (\<lambda>p. last_row_exits (customer_no (snd p)) (map snd (sort_values ties df)))
           (sort_values ties df))"
    by (simp add: rows_filter_non_exiting_customers filter_map comp_def)
  finally show ?thesis
    by (simp add: sorted_filter)
qed

lemma kept_customer_rows:
  assumes "last_row_exits c rows"
  shows "filter (\<lambda>r. customer_no r = c) (filter (\<lambda>r. last_row_exits (customer_no r) rows) rows)
           = filter (\<lambda>r. customer_no r = c) rows"
  unfolding filter_filter
proof (rule filter_cong [OF refl])
  fix r assume "r \<in> set rows"
  show "(last_row_exits (customer_no r) rows \<and> customer_no r = c) = (customer_no r = c)"
    using assms by auto
qed

lemma kept_rows_exit:
  assumes "r \<in> set (filter (\<lambda>r. last_row_exits (customer_no r) rows) rows)"
  shows "last_row_exits (customer_no r) (filter (\<lambda>r. last_row_exits (customer_no r) rows) rows)"
proof -
  from assms have ok: "last_row_exits (customer_no r) rows" by simp
  let ?kept = "filter (\<lambda>r. last_row_exits (customer_no r) rows) rows"
  have "last_row_exits (customer_no r) ?kept
          = exit (last (filter (\<lambda>r'. customer_no r' = customer_no r) ?kept))"
    by (rule last_row_exits_def)
  also have "\<dots> = exit (last (filter (\<lambda>r'. customer_no r' = customer_no r) rows))"
    by (simp only: kept_customer_rows [OF ok])
  also have "\<dots> = last_row_exits (customer_no r) rows"
    by (rule last_row_exits_def [symmetric])
  finally show ?thesis
    using ok by simp
qed

lemma sorted_last_max:
  assumes "sorted (map f xs)" and "xs \<noteq> []"
  shows "f (last xs) = Max (set (map f xs))"
proof -
  from assms(2) obtain ys y where xs: "xs = ys @ [y]"
    by (metis rev_exhaust)
  from assms(1) have le: "\<forall>z \<in> set ys. f z \<le> f y"
    by (simp add: xs sorted_append)
  have "Max (set (map f xs)) = f y"
  proof (rule Max_eqI)
    show "finite (set (map f xs))" by simp
    show "f y \<in> set (map f xs)" by (simp add: xs)
    fix v assume "v \<in> set (map f xs)"
    then show "v \<le> f y" using le by (auto simp: xs)
  qed
  then show ?thesis
    by (simp add: xs)
qed

text \<open>The rows of a customer in the sorted frame, and the last of them.\<close>

lemma customer_rows_sorted:
  "mset (filter (\<lambda>r. customer_no r = c) (map snd (sort_values ties df)))
     = mset (map snd (rows_of c df))"
  "sorted (map timestamp (filter (\<lambda>r. customer_no r = c) (map snd (sort_values ties df))))"
proof -
  have "mset (map snd (sort_values ties df)) = mset (map snd df)"
    by (simp only: mset_map mset_sort_values)
  then show "mset (filter (\<lambda>r. customer_no r = c) (map snd (sort_values ties df)))
               = mset (map snd (rows_of c df))"
    by (simp only: map_snd_rows_of mset_filter)
  have "map timestamp (map snd (sort_values ties df))
          = map (\<lambda>p. timestamp (snd p)) (sort_values ties df)"
    by (simp add: comp_def)
  then have "sorted (map timestamp (map snd (sort_values ties df)))"
    by (simp only: sorted_sort_values)
  then show "sorted (map timestamp (filter (\<lambda>r. customer_no r = c) (map snd (sort_values ties df))))"
    by (rule sorted_filter)
qed

lemma set_last_rows:
  "set (last_rows c df)
     = {r \<in> set (map snd (rows_of c df)).
          timestamp r = Max (timestamp ` set (map snd (rows_of c df)))}"
  by (auto simp: last_rows_def Let_def)

lemma last_in_last_rows:
  assumes "rows_of c df \<noteq> []"
  shows "last (filter (\<lambda>r. customer_no r = c) (map snd (sort_values ties df))) \<in> set (last_rows c df)"
proof -
  let ?g = "filter (\<lambda>r. customer_no r = c) (map snd (sort_values ties df))"
  have m: "mset ?g = mset (map snd (rows_of c df))"
    by (rule customer_rows_sorted(1))
  then have st: "set ?g = set (map snd (rows_of c df))"
    by (rule mset_eq_setD)
  from m assms have ne: "?g \<noteq> []"
    by (metis mset_zero_iff map_is_Nil_conv)
  have "timestamp (last ?g) = Max (set (map timestamp ?g))"
    using customer_rows_sorted(2) ne by (rule sorted_last_max)
  then have t: "timestamp (last ?g) = Max (timestamp ` set (map snd (rows_of c df)))"
    by (simp only: set_map st)
  have "last ?g \<in> set ?g"
    using ne by (rule last_in_set)
  then have "last ?g \<in> set (map snd (rows_of c df))"
    by (simp only: st)
  with t show ?thesis
    unfolding set_last_rows by blast
qed

lemma customer_removed:
  assumes "\<not> last_row_exits c (map snd (sort_values ties df))"
  shows "rows_of c (filter_non_exiting_customers ties df) = []"
proof -
  have "map snd (rows_of c (filter_non_exiting_customers ties df)) = []"
    unfolding map_snd_rows_of rows_filter_non_exiting_customers filter_filter
    using assms by (auto simp: filter_empty_conv)
  then show ?thesis by simp
qed

lemma customer_kept:
  assumes "last_row_exits c (map snd (sort_values ties df))"
  shows "mset (map snd (rows_of c (filter_non_exiting_customers ties df)))
           = mset (map snd (rows_of c df))"
  unfolding map_snd_rows_of [of c "filter_non_exiting_customers ties df"]
    rows_filter_non_exiting_customers kept_customer_rows [OF assms]
  by (rule customer_rows_sorted(1))

lemma customer_without_rows:
  assumes "rows_of c df = []"
  shows "rows_of c (filter_non_exiting_customers ties df) = []"
proof -
  have "filter (\<lambda>r. customer_no r = c) (map snd (sort_values ties df)) = []"
    using customer_rows_sorted(1) [of c ties df] assms by simp
  then have "map snd (rows_of c (filter_non_exiting_customers ties df)) = []"
    unfolding map_snd_rows_of rows_filter_non_exiting_customers filter_filter
    by (auto simp: filter_empty_conv)
  then show ?thesis by simp
qed

lemma no_last_exit_removed:
  assumes "list_all (\<lambda>r. \<not> exit r) (last_rows c df)"
  shows "rows_of c (filter_non_exiting_customers ties df) = []"
proof (cases "rows_of c df = []")
  case True
  then show ?thesis by (rule customer_without_rows)
next
  case False
  from last_in_last_rows [OF False, of ties] assms
  have "\<not> last_row_exits c (map snd (sort_values ties df))"
    by (auto simp: last_row_exits_def list_all_iff)
  then show ?thesis by (rule customer_removed)
qed

lemma all_last_exit_kept:
  assumes "list_all exit (last_rows c df)"
  shows "mset (map snd (rows_of c (filter_non_exiting_customers ties df)))
           = mset (map snd (rows_of c df))"
proof (cases "rows_of c df = []")
  case True
  then show ?thesis by (simp add: customer_without_rows)
next
  case False
  from last_in_last_rows [OF False, of ties] assms
  have "last_row_exits c (map snd (sort_values ties df))"
    by (auto simp: last_row_exits_def list_all_iff)
  then show ?thesis by (rule customer_kept)
qed

lemma ex_tagged: "add_entry_exit keep_order ex_scans = ex_tagged"
  by (simp add: add_entry_exit_rows sort_values_keep_order ex_scans_def ex_tagged_def tag_row_def
      scan.extend_def annotated.fields_def)

lemma sorted_ex_tagged: "sorted (map (\<lambda>p. timestamp (snd p)) ex_tagged)"
  by (simp add: ex_tagged_def)

lemma filter_ex_tagged:
  "filter_non_exiting_customers keep_order ex_tagged =
     [(0, \<lparr>timestamp = 5, customer_no = 1, location = ''spices'', entry = True, exit = False,
           customer_count_change = 1\<rparr>),
      (1, \<lparr>timestamp = 5, customer_no = 1, location = ''drinks'', entry = False, exit = False,
           customer_count_change = 0\<rparr>),
      (2, \<lparr>timestamp = 7, customer_no = 1, location = ''dairy'', entry = False, exit = False,
           customer_count_change = 0\<rparr>),
      (3, \<lparr>timestamp = 9, customer_no = 1, location = ''checkout'', entry = False, exit = True,
           customer_count_change = - 1\<rparr>)]"
  by (simp add: filter_non_exiting_customers_keeps sort_values_keep_order last_row_exits_def
      ex_tagged_def reset_index_def upt_rec)

lemma filtered_ex17:
  "ex17_filtered =
     map (\<lambda>k. (k, \<lparr>timestamp = 0, customer_no = (if k = 1 \<or> k = 14 then 1 else k + 10),
                     location = (if k = 1 then ''dairy'' else ''checkout''),
                     entry = (k \<noteq> 1), exit = (k \<noteq> 1),
                     customer_count_change = (if k = 1 then 0 else - 1)\<rparr>))
       [0 ..< 17]"
  unfolding ex17_filtered_def ex17_tagged_def quicksort17_ties_def by code_simp

lemma filtered_twice_ex17:
  "map (\<lambda>p. (fst p, customer_no (snd p)))
     (filter_non_exiting_customers (quicksort17_ties ex17_filtered) ex17_filtered) =
     [(0, 10), (1, 23), (2, 22), (3, 21), (4, 20), (5, 19), (6, 25), (7, 18), (8, 16), (9, 15),
      (10, 14), (11, 13), (12, 12), (13, 17), (14, 26)]"
  unfolding ex17_filtered_def ex17_tagged_def quicksort17_ties_def by code_simp

lemma timestamps_tag_from [simp]:
  "map (\<lambda>p. timestamp (snd p)) (tag_from seen ps) = map (\<lambda>p. timestamp (snd p)) ps"
  by (induction ps arbitrary: seen) (simp_all add: tag_row_def scan.extend_def)

lemma sorted_add_entry_exit: "sorted (map (\<lambda>p. timestamp (snd p)) (add_entry_exit ties df))"
  by (simp add: add_entry_exit_rows)

text \<open>
  C2, as stated, fails. \<open>ex17_tagged\<close> is a tagged table, sorted by timestamp. The
  temporally last row of customer 1 (maximum timestamp, last in the order of the table)
  is the row at the dairy, which is not an exit, so the claim removes customer 1 and
  keeps 15 rows in their order. The sort inside the filter returns the checkout row of
  customer 1 after the dairy row, and the filter keeps all 17 rows.
\<close>

theorem filter_tie_counterexample:
  "sorted (map (\<lambda>p. timestamp (snd p)) ex17_tagged)
   \<and> \<not> exit (snd (temporally_last_row 1 ex17_tagged))
   \<and> map (\<lambda>p. location (snd p))
         (rows_of 1 (filter_non_exiting_customers (quicksort17_ties ex17_tagged) ex17_tagged))
       = [''dairy'', ''checkout'']
   \<and> map snd (filter_non_exiting_customers (quicksort17_ties ex17_tagged) ex17_tagged)
       \<noteq> filter (\<lambda>r. exit (snd (temporally_last_row (customer_no r) ex17_tagged)))
           (map snd ex17_tagged)"
proof -
  have a: "sorted (map (\<lambda>p. timestamp (snd p)) ex17_tagged)"
    unfolding ex17_tagged_def by (rule sorted_add_entry_exit)
  have b: "\<not> exit (snd (temporally_last_row 1 ex17_tagged))"
    unfolding tagged_ex17 by (simp add: temporally_last_row_def rows_of_def)
  have c: "map (\<lambda>p. location (snd p)) (rows_of 1 ex17_filtered) = [''dairy'', ''checkout'']"
    unfolding filtered_ex17 by (simp add: rows_of_def upt_rec)
  have l: "length (map snd ex17_filtered) = 17"
    unfolding filtered_ex17 by simp
  have "length (filter (\<lambda>r. exit (snd (temporally_last_row (customer_no r) ex17_tagged)))
                   (map snd ex17_tagged)) \<le> 16"
  proof -
    have "\<lparr>timestamp = 0, customer_no = 1, location = ''dairy'', entry = False, exit = False,
            customer_count_change = 0\<rparr> \<in> set (map snd ex17_tagged)"
      unfolding tagged_ex17 by simp
    then have "length (filter (\<lambda>r. exit (snd (temporally_last_row (customer_no r) ex17_tagged)))
                 (map snd ex17_tagged)) < length (map snd ex17_tagged)"
      by (rule length_filter_less) (use b in simp)
    moreover have "length (map snd ex17_tagged) = 17"
      unfolding tagged_ex17 by simp
    ultimately show ?thesis by simp
  qed
  with l have "length (map snd ex17_filtered)
       \<noteq> length (filter (\<lambda>r. exit (snd (temporally_last_row (customer_no r) ex17_tagged)))
           (map snd ex17_tagged))"
    by simp
  then have d: "map snd ex17_filtered
       \<noteq> filter (\<lambda>r. exit (snd (temporally_last_row (customer_no r) ex17_tagged)))
           (map snd ex17_tagged)"
    by metis
  from a b c d show ?thesis
    unfolding ex17_filtered_def by blast
qed

text \<open>
  C2, amended. For every tagged table and every order of equal timestamps,
  \<^verbatim>\<open>filter_non_exiting_customers\<close> removes every row of a customer none of whose rows of
  maximum timestamp is an exit, keeps every row of a customer all of whose rows of
  maximum timestamp are exits, and keeps all or none of the rows of any other customer;
  the retained rows come in ascending order of timestamp (rows of equal timestamp in the
  order the sort gives them) and are labelled 0, 1, 2, ...
\<close>

theorem filter_non_exiting_customers_rows:
  "map fst (filter_non_exiting_customers ties df) = [0 ..< length (filter_non_exiting_customers ties df)]
   \<and> sorted (map (\<lambda>p. timestamp (snd p)) (filter_non_exiting_customers ties df))
   \<and> (list_all (\<lambda>r. \<not> exit r) (last_rows c df) \<longrightarrow>
        rows_of c (filter_non_exiting_customers ties df) = [])
   \<and> (list_all exit (last_rows c df) \<longrightarrow>
        mset (map snd (rows_of c (filter_non_exiting_customers ties df))) = mset (map snd (rows_of c df)))
   \<and> (rows_of c (filter_non_exiting_customers ties df) = []
        \<or> mset (map snd (rows_of c (filter_non_exiting_customers ties df)))
            = mset (map snd (rows_of c df)))"
proof -
  have "rows_of c (filter_non_exiting_customers ties df) = []
        \<or> mset (map snd (rows_of c (filter_non_exiting_customers ties df)))
            = mset (map snd (rows_of c df))"
    using customer_removed [of c ties df] customer_kept [of c ties df] by blast
  then show ?thesis
    using labels_filter_non_exiting_customers [of ties df]
      sorted_filter_non_exiting_customers [of ties df]
      no_last_exit_removed [of c df ties] all_last_exit_kept [of c df ties]
    by blast
qed

theorem filter_non_exiting_customers_rows_witness:
  "list_all (\<lambda>r. \<not> exit r) (last_rows 2 ex_tagged)
   \<and> rows_of 2 (filter_non_exiting_customers keep_order ex_tagged) = []
   \<and> list_all exit (last_rows 1 ex_tagged)
   \<and> mset (map snd (rows_of 1 (filter_non_exiting_customers keep_order ex_tagged)))
       = mset (map snd (rows_of 1 ex_tagged))
   \<and> filter_non_exiting_customers keep_order ex_tagged =
     [(0, \<lparr>timestamp = 5, customer_no = 1, location = ''spices'', entry = True, exit = False,
           customer_count_change = 1\<rparr>),
      (1, \<lparr>timestamp = 5, customer_no = 1, location = ''drinks'', entry = False, exit = False,
           customer_count_change = 0\<rparr>),
      (2, \<lparr>timestamp = 7, customer_no = 1, location = ''dairy'', entry = False, exit = False,
           customer_count_change = 0\<rparr>),
      (3, \<lparr>timestamp = 9, customer_no = 1, location = ''checkout'', entry = False, exit = True,
           customer_count_change = - 1\<rparr>)]"
proof -
  have a: "list_all (\<lambda>r. \<not> exit r) (last_rows 2 ex_tagged)"
    by (simp add: last_rows_def ex_tagged_def)
  have b: "list_all exit (last_rows 1 ex_tagged)"
    by (simp add: last_rows_def ex_tagged_def)
  from filter_non_exiting_customers_rows [of keep_order ex_tagged 2]
    filter_non_exiting_customers_rows [of keep_order ex_tagged 1] a b filter_ex_tagged
  show ?thesis by blast
qed

lemma filter_key_distinct:
  "distinct (map f zs) \<Longrightarrow> k \<in> set zs \<Longrightarrow> filter (\<lambda>x. f k = f x) zs = [k]"
proof (induction zs)
  case Nil
  then show ?case by simp
next
  case (Cons a zs)
  then have fa: "f a \<notin> f ` set zs" and d: "distinct (map f zs)"
    by simp_all
  show ?case
  proof (cases "k = a")
    case True
    from fa have "filter (\<lambda>x. f a = f x) zs = []"
      by (auto simp: filter_empty_conv)
    with True show ?thesis by simp
  next
    case False
    with Cons.prems(2) have k: "k \<in> set zs" by simp
    with fa have "f k \<noteq> f a" by (metis imageI)
    with Cons.IH [OF d k] show ?thesis by simp
  qed
qed

lemma sort_key_sorted_distinct:
  assumes "sorted (map f xs)" and "distinct (map f xs)" and "mset ys = mset xs"
  shows "sort_key f ys = xs"
proof (rule properties_for_sort_key)
  show "mset xs = mset ys" by (simp add: assms(3))
  show "sorted (map f xs)" by (rule assms(1))
  fix k assume k: "k \<in> set xs"
  from assms(3) have "mset (map f ys) = mset (map f xs)"
    by simp
  with assms(2) have dy: "distinct (map f ys)"
    by (metis mset_eq_imp_distinct_iff)
  from assms(3) k have ky: "k \<in> set ys"
    by (metis mset_eq_setD)
  show "filter (\<lambda>x. f k = f x) xs = filter (\<lambda>x. f k = f x) ys"
    by (simp add: filter_key_distinct [OF assms(2) k] filter_key_distinct [OF dy ky])
qed

lemma sort_values_sorted_distinct:
  assumes "sorted (map (\<lambda>p. timestamp (snd p)) df)" and "distinct (map (\<lambda>p. timestamp (snd p)) df)"
  shows "sort_values ties df = df"
  unfolding sort_values_def by (rule sort_key_sorted_distinct [OF assms]) simp

lemma filter_again_same_order:
  assumes "sort_values ties' (filter_non_exiting_customers ties df) = filter_non_exiting_customers ties df"
  shows "filter_non_exiting_customers ties' (filter_non_exiting_customers ties df)
           = filter_non_exiting_customers ties df"
proof -
  let ?out = "filter_non_exiting_customers ties df"
  let ?rows = "map snd (sort_values ties df)"
  have rows: "map snd ?out = filter (\<lambda>r. last_row_exits (customer_no r) ?rows) ?rows"
    by (rule rows_filter_non_exiting_customers)
  have "\<And>p. p \<in> set ?out \<Longrightarrow> last_row_exits (customer_no (snd p)) (map snd ?out)"
  proof -
    fix p assume "p \<in> set ?out"
    then have "snd p \<in> set (map snd ?out)" by simp
    then show "last_row_exits (customer_no (snd p)) (map snd ?out)"
      unfolding rows by (rule kept_rows_exit)
  qed
  then have "filter (\<lambda>p. last_row_exits (customer_no (snd p)) (map snd ?out)) ?out = ?out"
    by simp
  then have "filter_non_exiting_customers ties' ?out = reset_index ?out"
    using filter_non_exiting_customers_keeps [of ties' ?out] by (simp add: assms)
  also have "\<dots> = ?out"
    using reset_index_cong [of ?out "filter (\<lambda>p. last_row_exits (customer_no (snd p)) ?rows) (sort_values ties df)"]
    by (simp add: filter_non_exiting_customers_keeps)
  finally show ?thesis .
qed

lemma last_rows_cong:
  assumes "mset (map snd (rows_of c df')) = mset (map snd (rows_of c df))"
  shows "set (last_rows c df') = set (last_rows c df)"
proof -
  from assms have "set (map snd (rows_of c df')) = set (map snd (rows_of c df))"
    by (rule mset_eq_setD)
  then show ?thesis
    unfolding set_last_rows by simp
qed

lemma filter_again_same_rows:
  assumes "exit_decided df"
  shows "mset (map snd (filter_non_exiting_customers ties' (filter_non_exiting_customers ties df)))
           = mset (map snd (filter_non_exiting_customers ties df))"
proof -
  let ?out = "filter_non_exiting_customers ties df"
  let ?rows' = "map snd (sort_values ties' ?out)"
  have ok: "\<And>r. r \<in> set ?rows' \<Longrightarrow> last_row_exits (customer_no r) ?rows'"
  proof -
    fix r assume "r \<in> set ?rows'"
    then obtain p where p: "p \<in> set ?out" "r = snd p" by auto
    let ?c = "customer_no r"
    from p have ne: "rows_of ?c ?out \<noteq> []"
      by (simp add: rows_of_nonempty)
    then have nd: "rows_of ?c df \<noteq> []"
      using customer_without_rows [of ?c df ties] by blast
    then obtain q where "q \<in> set df" "customer_no (snd q) = ?c"
      by (auto simp: rows_of_def filter_empty_conv)
    then have "?c \<in> set (map (\<lambda>p. customer_no (snd p)) df)"
      by force
    with assms have "list_all exit (last_rows ?c df) \<or> list_all (\<lambda>r. \<not> exit r) (last_rows ?c df)"
      by (auto simp: exit_decided_def list_all_iff)
    with ne no_last_exit_removed [of ?c df ties] have all: "list_all exit (last_rows ?c df)"
      by blast
    then have "mset (map snd (rows_of ?c ?out)) = mset (map snd (rows_of ?c df))"
      by (rule all_last_exit_kept)
    then have "set (last_rows ?c ?out) = set (last_rows ?c df)"
      by (rule last_rows_cong)
    with all have "list_all exit (last_rows ?c ?out)"
      by (simp add: list_all_iff)
    with last_in_last_rows [OF ne, of ties'] show "last_row_exits ?c ?rows'"
      by (auto simp: last_row_exits_def list_all_iff)
  qed
  have "map snd (filter_non_exiting_customers ties' ?out)
          = filter (\<lambda>r. last_row_exits (customer_no r) ?rows') ?rows'"
    by (rule rows_filter_non_exiting_customers)
  also have "\<dots> = ?rows'"
    using ok by simp
  finally show ?thesis
    by (simp only: mset_map mset_sort_values)
qed

text \<open>
  C7, as stated, fails. The filter keeps all 17 rows of the tagged table \<open>ex17_tagged\<close>:
  its sort returns the checkout row of customer 1 after the dairy row. Applied to that
  result, the sort returns the two rows the other way round, customer 1 counts as not
  exiting, and 15 rows are left.
\<close>

theorem filter_twice_counterexample:
  "length (filter_non_exiting_customers (quicksort17_ties ex17_tagged) ex17_tagged) = 17
   \<and> length (filter_non_exiting_customers
         (quicksort17_ties (filter_non_exiting_customers (quicksort17_ties ex17_tagged) ex17_tagged))
         (filter_non_exiting_customers (quicksort17_ties ex17_tagged) ex17_tagged)) = 15
   \<and> filter_non_exiting_customers
         (quicksort17_ties (filter_non_exiting_customers (quicksort17_ties ex17_tagged) ex17_tagged))
         (filter_non_exiting_customers (quicksort17_ties ex17_tagged) ex17_tagged)
       \<noteq> filter_non_exiting_customers (quicksort17_ties ex17_tagged) ex17_tagged"
proof -
  have a: "length ex17_filtered = 17"
    unfolding filtered_ex17 by simp
  have "length (map (\<lambda>p. (fst p, customer_no (snd p)))
          (filter_non_exiting_customers (quicksort17_ties ex17_filtered) ex17_filtered)) = 15"
    unfolding filtered_twice_ex17 by simp
  then have b: "length (filter_non_exiting_customers (quicksort17_ties ex17_filtered) ex17_filtered) = 15"
    by simp
  have "filter_non_exiting_customers (quicksort17_ties ex17_filtered) ex17_filtered
          \<noteq> ex17_filtered"
  proof
    assume "filter_non_exiting_customers (quicksort17_ties ex17_filtered) ex17_filtered
              = ex17_filtered"
    with b have "length ex17_filtered = 15" by simp
    with a show False by simp
  qed
  with a b show ?thesis
    unfolding ex17_filtered_def by blast
qed

text \<open>
  C7, amended. Applying \<^verbatim>\<open>filter_non_exiting_customers\<close> twice retains the same rows as
  applying it once, for every table in which no customer has both an exit and another
  row among its rows of maximum timestamp; and the two results are the same frame when
  no two retained rows have the same timestamp. This holds for every order of equal
  timestamps in the two sorts.
\<close>

theorem filter_non_exiting_customers_idempotent:
  "(exit_decided df \<longrightarrow>
      mset (map snd (filter_non_exiting_customers ties' (filter_non_exiting_customers ties df)))
        = mset (map snd (filter_non_exiting_customers ties df)))
   \<and> (distinct (map (\<lambda>p. timestamp (snd p)) (filter_non_exiting_customers ties df)) \<longrightarrow>
      filter_non_exiting_customers ties' (filter_non_exiting_customers ties df)
        = filter_non_exiting_customers ties df)"
proof -
  have "filter_non_exiting_customers ties' (filter_non_exiting_customers ties df)
          = filter_non_exiting_customers ties df"
    if "distinct (map (\<lambda>p. timestamp (snd p)) (filter_non_exiting_customers ties df))"
    by (rule filter_again_same_order)
      (rule sort_values_sorted_distinct [OF sorted_filter_non_exiting_customers that])
  then show ?thesis
    using filter_again_same_rows [of df ties' ties] by blast
qed

lemma tagged_ex_visits:
  "add_entry_exit keep_order ex_visits =
     [(0, \<lparr>timestamp = 1, customer_no = 1, location = ''dairy'', entry = True, exit = False,
           customer_count_change = 1\<rparr>),
      (1, \<lparr>timestamp = 2, customer_no = 1, location = ''checkout'', entry = False, exit = True,
           customer_count_change = - 1\<rparr>),
      (2, \<lparr>timestamp = 3, customer_no = 2, location = ''dairy'', entry = True, exit = False,
           customer_count_change = 1\<rparr>),
      (3, \<lparr>timestamp = 4, customer_no = 2, location = ''spices'', entry = False, exit = False,
           customer_count_change = 0\<rparr>),
      (4, \<lparr>timestamp = 5, customer_no = 2, location = ''checkout'', entry = False, exit = True,
           customer_count_change = - 1\<rparr>)]"
  by (simp add: add_entry_exit_rows sort_values_keep_order ex_visits_def tag_row_def
      scan.extend_def annotated.fields_def)

lemma filter_tagged_ex_visits:
  "filter_non_exiting_customers keep_order (add_entry_exit keep_order ex_visits)
     = add_entry_exit keep_order ex_visits"
  unfolding tagged_ex_visits
  by (simp add: filter_non_exiting_customers_keeps sort_values_keep_order last_row_exits_def
      reset_index_def upt_rec)

theorem filter_non_exiting_customers_idempotent_witness:
  "exit_decided ex_tagged
   \<and> mset (map snd (filter_non_exiting_customers keep_order
                        (filter_non_exiting_customers keep_order ex_tagged)))
       = mset (map snd (filter_non_exiting_customers keep_order ex_tagged))
   \<and> distinct (map (\<lambda>p. timestamp (snd p))
         (filter_non_exiting_customers keep_order (add_entry_exit keep_order ex_visits)))
   \<and> filter_non_exiting_customers keep_order
         (filter_non_exiting_customers keep_order (add_entry_exit keep_order ex_visits))
       = filter_non_exiting_customers keep_order (add_entry_exit keep_order ex_visits)"
proof -
  have a: "exit_decided ex_tagged"
    by (simp add: exit_decided_def last_rows_def ex_tagged_def)
  have b: "distinct (map (\<lambda>p. timestamp (snd p))
             (filter_non_exiting_customers keep_order (add_entry_exit keep_order ex_visits)))"
    by (simp only: filter_tagged_ex_visits) (simp add: tagged_ex_visits)
  from filter_non_exiting_customers_idempotent [of ex_tagged keep_order keep_order]
    filter_non_exiting_customers_idempotent
      [of "add_entry_exit keep_order ex_visits" keep_order keep_order] a b
  show ?thesis by blast
qed

lemma rows_of_tag_from_empty: "rows_of c ps = [] \<Longrightarrow> rows_of c (tag_from seen ps) = []"
  by (induction ps arbitrary: seen) (simp_all split: if_splits)

lemma tag_row_fresh: "customer_no r \<notin> set seen \<Longrightarrow> tag_row seen r = tag_row [] r"
  by (simp add: tag_row_def)

lemma rows_of_tag_from_single:
  "rows_of c ps = [(i, r)] \<Longrightarrow> c \<notin> set seen \<Longrightarrow>
     rows_of c (tag_from seen ps) = [(i, tag_row [] r)]"
proof (induction ps arbitrary: seen)
  case Nil
  then show ?case by simp
next
  case (Cons p ps)
  show ?case
  proof (cases "customer_no (snd p) = c")
    case True
    from Cons.prems(1) True have p: "p = (i, r)" and rest: "rows_of c ps = []"
      by simp_all
    from True p have cr: "customer_no r = c"
      by simp
    from Cons.prems(2) cr have fresh: "tag_row seen r = tag_row [] r"
      by (auto intro: tag_row_fresh)
    have "rows_of c (tag_from seen (p # ps))
            = (i, tag_row seen r) # rows_of c (tag_from (customer_no r # seen) ps)"
      unfolding p tag_from.simps fst_conv snd_conv rows_of_Cons customer_no_tag_row cr by simp
    also have "\<dots> = [(i, tag_row [] r)]"
      unfolding rows_of_tag_from_empty [OF rest] fresh by simp
    finally show ?thesis .
  next
    case False
    with Cons.prems(1) have rest: "rows_of c ps = [(i, r)]"
      by simp
    from False Cons.prems(2) have "c \<notin> set (customer_no (snd p) # seen)"
      by auto
    from Cons.IH [OF rest this] have "rows_of c (tag_from (customer_no (snd p) # seen) ps)
                                       = [(i, tag_row [] r)]" .
    with False show ?thesis
      unfolding tag_from.simps rows_of_Cons snd_conv customer_no_tag_row by simp
  qed
qed

text \<open>
  C10. A customer whose only row is at the checkout is retained by
  \<^verbatim>\<open>filter_non_exiting_customers\<close> after \<^verbatim>\<open>add_entry_exit\<close>: the row is tagged as entry
  and exit, it is the last appearance of the customer, and it is the only row of the
  customer in the result. This holds for every order of equal timestamps in the two
  sorts.
\<close>

theorem single_checkout_row_retained:
  assumes "rows_of c df = [(i, r)]" and "location r = ''checkout''"
  shows "map snd (rows_of c (filter_non_exiting_customers ties' (add_entry_exit ties df))) =
           [\<lparr>timestamp = timestamp r, customer_no = c, location = ''checkout'',
             entry = True, exit = True, customer_count_change = - 1\<rparr>]"
proof -
  let ?t = "add_entry_exit ties df"
  let ?rows = "map snd (sort_values ties' ?t)"
  let ?r = "\<lparr>timestamp = timestamp r, customer_no = c, location = ''checkout'',
             entry = True, exit = True, customer_count_change = - 1\<rparr>"
  have "(i, r) \<in> set (rows_of c df)"
    by (simp add: assms(1))
  then have c: "customer_no r = c"
    by (simp add: rows_of_def)
  have "rows_of c (sort_values ties df) = [(i, r)]"
    by (simp add: rows_of_sort_values assms(1))
  then have "rows_of c ?t = [(i, tag_row [] r)]"
    by (simp add: add_entry_exit_rows rows_of_tag_from_single)
  then have "rows_of c (sort_values ties' ?t) = [(i, tag_row [] r)]"
    by (simp add: rows_of_sort_values)
  moreover have "tag_row [] r = ?r"
    by (simp add: tag_row_def scan.extend_def annotated.fields_def assms(2) c)
  ultimately have g: "filter (\<lambda>r. customer_no r = c) ?rows = [?r]"
    by (simp flip: map_snd_rows_of)
  then have ok: "last_row_exits c ?rows"
    by (simp add: last_row_exits_def)
  have "map snd (rows_of c (filter_non_exiting_customers ties' ?t))
          = filter (\<lambda>r. customer_no r = c)
              (filter (\<lambda>r. last_row_exits (customer_no r) ?rows) ?rows)"
    by (simp add: map_snd_rows_of rows_filter_non_exiting_customers)
  also have "\<dots> = [?r]"
    by (simp only: kept_customer_rows [OF ok] g)
  finally show ?thesis .
qed

theorem single_checkout_row_retained_witness:
  "rows_of 2 ex_single = [(1, \<lparr>timestamp = 2, customer_no = 2, location = ''checkout''\<rparr>)]
   \<and> map snd (rows_of 2 (filter_non_exiting_customers keep_order (add_entry_exit keep_order ex_single))) =
           [\<lparr>timestamp = 2, customer_no = 2, location = ''checkout'',
             entry = True, exit = True, customer_count_change = - 1\<rparr>]"
proof -
  have h: "rows_of 2 ex_single = [(1, \<lparr>timestamp = 2, customer_no = 2, location = ''checkout''\<rparr>)]"
    by (simp add: ex_single_def)
  have l: "location \<lparr>timestamp = 2, customer_no = 2::nat, location = ''checkout''\<rparr> = ''checkout''"
    by simp
  from single_checkout_row_retained [OF h l] h show ?thesis
    by simp
qed

section \<open>The running total of customers\<close>

lemma length_cumsum_from [simp]: "length (cumsum_from a xs) = length xs"
  by (induction xs arbitrary: a) simp_all

lemma cumsum_from_snoc:
  "cumsum_from a (xs @ [x]) = cumsum_from a xs @ [a + sum_list xs + x]"
  by (induction xs arbitrary: a) (simp_all add: add.assoc)

lemma last_total_of_timestamp:
  assumes "sorted (map f xs)" and "T \<in> f ` set xs"
  shows "last (map snd (filter (\<lambda>q. fst q = T) (zip (map f xs) (cumsum_from a (map g xs)))))
           = a + sum_list (map g (filter (\<lambda>x. f x \<le> T) xs))"
  using assms
proof (induction xs rule: rev_induct)
  case Nil
  then show ?case by simp
next
  case (snoc x xs)
  let ?total = "a + sum_list (map g xs) + g x"
  from snoc.prems(1) have le: "\<forall>z \<in> set xs. f z \<le> f x" and srt: "sorted (map f xs)"
    by (simp_all add: sorted_append)
  have z: "zip (map f (xs @ [x])) (cumsum_from a (map g (xs @ [x])))
             = zip (map f xs) (cumsum_from a (map g xs)) @ [(f x, ?total)]"
    by (simp add: cumsum_from_snoc)
  show ?case
  proof (cases "T = f x")
    case True
    have "filter (\<lambda>y. f y \<le> T) (xs @ [x]) = xs @ [x]"
      using le True by simp
    then show ?thesis
      unfolding z by (simp add: True)
  next
    case False
    with snoc.prems(2) have mem: "T \<in> f ` set xs" by auto
    with le False have "\<not> f x \<le> T" by fastforce
    then have "filter (\<lambda>y. f y \<le> T) (xs @ [x]) = filter (\<lambda>y. f y \<le> T) xs"
      by simp
    with snoc.IH [OF srt mem] False show ?thesis
      unfolding z by simp
  qed
qed

text \<open>
  C3. For a tagged table (sorted by timestamp), \<^verbatim>\<open>compute_customer_total\<close> has one row
  per distinct timestamp \<open>T\<close>, in ascending order, and its total is the sum of
  \<^verbatim>\<open>customer_count_change\<close> over the rows of timestamp at most \<open>T\<close>.
\<close>

theorem compute_customer_total_running_sum:
  assumes "sorted (map (\<lambda>p. timestamp (snd p)) df)"
  shows "compute_customer_total df =
           map (\<lambda>T. (T, sum_list (map (\<lambda>p. customer_count_change (snd p))
                                  (filter (\<lambda>p. timestamp (snd p) \<le> T) df))))
             (sort (remdups (map (\<lambda>p. timestamp (snd p)) df)))"
proof -
  have "\<And>T. T \<in> set (sort (remdups (map (\<lambda>p. timestamp (snd p)) df))) \<Longrightarrow>
          last (map snd (filter (\<lambda>q. fst q = T)
                 (zip (map (\<lambda>p. timestamp (snd p)) df)
                      (cumsum_from 0 (map (\<lambda>p. customer_count_change (snd p)) df)))))
          = sum_list (map (\<lambda>p. customer_count_change (snd p))
                        (filter (\<lambda>p. timestamp (snd p) \<le> T) df))"
    using last_total_of_timestamp [OF assms, of _ 0 "\<lambda>p. customer_count_change (snd p)"]
    by simp
  then show ?thesis
    unfolding compute_customer_total_def Let_def cumsum_def
    by (simp cong: map_cong)
qed

theorem compute_customer_total_running_sum_witness:
  "sorted (map (\<lambda>p. timestamp (snd p)) ex_tagged)
   \<and> compute_customer_total ex_tagged = [(3, 1), (5, 2), (7, 2), (9, 1)]"
proof -
  have "map (\<lambda>T. (T, sum_list (map (\<lambda>p. customer_count_change (snd p))
                                  (filter (\<lambda>p. timestamp (snd p) \<le> T) ex_tagged))))
             (sort (remdups (map (\<lambda>p. timestamp (snd p)) ex_tagged)))
          = [(3, 1), (5, 2), (7, 2), (9, 1)]"
    by (simp add: ex_tagged_def)
  with compute_customer_total_running_sum [OF sorted_ex_tagged] sorted_ex_tagged
  show ?thesis by simp
qed

section \<open>The time in the store\<close>

lemma time_in_store_cases:
  "time_in_store g =
     (if filter exit g = [] \<or> filter entry g = [] then Inl IndexError
      else Inr (timestamp (hd (filter exit g)) - timestamp (hd (filter entry g))))"
  by (simp add: time_in_store_def iloc0_def split: list.splits)

lemma apply_groups_all:
  "(\<And>k. k \<in> set ks \<Longrightarrow> f k = Inr (g k)) \<Longrightarrow>
     apply_groups f ks = Inr (map (\<lambda>k. (k, g k)) ks)"
  by (induction ks) simp_all

lemma apply_groups_error:
  "k \<in> set ks \<Longrightarrow> f k = Inl e \<Longrightarrow> (\<And>k' e'. k' \<in> set ks \<Longrightarrow> f k' = Inl e' \<Longrightarrow> e' = e) \<Longrightarrow>
     apply_groups f ks = Inl e"
proof (induction ks)
  case Nil
  then show ?case by simp
next
  case (Cons a ks)
  show ?case
  proof (cases "f a")
    case (Inl e')
    with Cons.prems(3) [of a e'] show ?thesis by simp
  next
    case (Inr v)
    with Cons.prems(1,2) have "k \<in> set ks" by auto
    have "apply_groups f ks = Inl e"
    proof (rule Cons.IH [OF \<open>k \<in> set ks\<close> Cons.prems(2)])
      fix k' e' assume "k' \<in> set ks" "f k' = Inl e'"
      then show "e' = e" using Cons.prems(3) [of k' e'] by simp
    qed
    with Inr show ?thesis by simp
  qed
qed

lemma sorted_hd_min:
  assumes "sorted (map f xs)" and "xs \<noteq> []"
  shows "f (hd xs) = Min (set (map f xs))"
proof -
  from assms(2) obtain y ys where xs: "xs = y # ys"
    by (cases xs) auto
  from assms(1) have le: "\<forall>z \<in> set ys. f y \<le> f z"
    by (simp add: xs)
  have "Min (set (map f xs)) = f y"
  proof (rule Min_eqI)
    show "finite (set (map f xs))" by simp
    show "f y \<in> set (map f xs)" by (simp add: xs)
    fix v assume "v \<in> set (map f xs)"
    then show "f y \<le> v" using le by (auto simp: xs)
  qed
  then show ?thesis by (simp add: xs)
qed

lemma has_row_iff:
  "has_row flag c df = (filter flag (filter (\<lambda>r. customer_no r = c) (map snd df)) \<noteq> [])"
  by (auto simp: has_row_def list_ex_iff filter_empty_conv)

lemma earliest_hd:
  assumes "sorted (map (\<lambda>p. timestamp (snd p)) df)" and "has_row flag c df"
  shows "timestamp (hd (filter flag (filter (\<lambda>r. customer_no r = c) (map snd df))))
           = earliest flag c df"
proof -
  let ?g = "filter flag (filter (\<lambda>r. customer_no r = c) (map snd df))"
  have "map (\<lambda>p. timestamp (snd p)) df = map timestamp (map snd df)"
    by (simp add: comp_def)
  with assms(1) have "sorted (map timestamp (map snd df))"
    by simp
  then have "sorted (map timestamp ?g)"
    by (intro sorted_filter)
  moreover from assms(2) have "?g \<noteq> []"
    by (simp add: has_row_iff)
  ultimately have "timestamp (hd ?g) = Min (set (map timestamp ?g))"
    by (rule sorted_hd_min)
  then show ?thesis
    by (simp add: earliest_def conj_commute)
qed

text \<open>
  C4. For a tagged table sorted by timestamp, \<^verbatim>\<open>compute_customer_time_in_store\<close> maps
  every customer to the timestamp of its earliest exit row minus the timestamp of its
  earliest entry row when every customer of the table has an entry row and an exit row,
  and fails (the IndexError of \<^verbatim>\<open>.iloc[0]\<close>, which the specification calls MissingData)
  when some customer has no entry row or no exit row.
\<close>

theorem compute_customer_time_in_store_result:
  assumes "sorted (map (\<lambda>p. timestamp (snd p)) df)"
  shows "compute_customer_time_in_store df =
           (if \<forall>c \<in> set (map (\<lambda>p. customer_no (snd p)) df). has_row entry c df \<and> has_row exit c df
            then Inr (map (\<lambda>c. (c, earliest exit c df - earliest entry c df))
                       (sort (remdups (map (\<lambda>p. customer_no (snd p)) df))))
            else Inl IndexError)"
proof (cases "\<forall>c \<in> set (map (\<lambda>p. customer_no (snd p)) df). has_row entry c df \<and> has_row exit c df")
  case True
  have "apply_groups (\<lambda>c. time_in_store (filter (\<lambda>r. customer_no r = c) (map snd df)))
          (sort (remdups (map (\<lambda>p. customer_no (snd p)) df)))
        = Inr (map (\<lambda>c. (c, earliest exit c df - earliest entry c df))
                 (sort (remdups (map (\<lambda>p. customer_no (snd p)) df))))"
  proof (rule apply_groups_all)
    fix c assume "c \<in> set (sort (remdups (map (\<lambda>p. customer_no (snd p)) df)))"
    with True have h: "has_row entry c df" "has_row exit c df"
      by auto
    then show "time_in_store (filter (\<lambda>r. customer_no r = c) (map snd df))
                 = Inr (earliest exit c df - earliest entry c df)"
      using earliest_hd [OF assms h(1)] earliest_hd [OF assms h(2)] h
      by (simp only: time_in_store_cases has_row_iff) simp
  qed
  then show ?thesis
    unfolding compute_customer_time_in_store_def if_P [OF True] .
next
  case False
  then obtain c where c: "c \<in> set (map (\<lambda>p. customer_no (snd p)) df)"
      and m: "\<not> has_row entry c df \<or> \<not> has_row exit c df"
    by blast
  have "apply_groups (\<lambda>c. time_in_store (filter (\<lambda>r. customer_no r = c) (map snd df)))
          (sort (remdups (map (\<lambda>p. customer_no (snd p)) df))) = Inl IndexError"
  proof (rule apply_groups_error [of c])
    show "c \<in> set (sort (remdups (map (\<lambda>p. customer_no (snd p)) df)))"
      using c by simp
    show "time_in_store (filter (\<lambda>r. customer_no r = c) (map snd df)) = Inl IndexError"
      using m by (auto simp: time_in_store_cases has_row_iff)
    fix k' e'
    assume "time_in_store (filter (\<lambda>r. customer_no r = k') (map snd df)) = Inl e'"
    then show "e' = IndexError"
      by (simp add: time_in_store_cases split: if_splits)
  qed
  then show ?thesis
    unfolding compute_customer_time_in_store_def if_not_P [OF False] .
qed

theorem compute_customer_time_in_store_result_witness:
  "sorted (map (\<lambda>p. timestamp (snd p)) ex_tagged)
   \<and> compute_customer_time_in_store ex_tagged = Inl IndexError
   \<and> sorted (map (\<lambda>p. timestamp (snd p)) (filter_non_exiting_customers keep_order ex_tagged))
   \<and> compute_customer_time_in_store (filter_non_exiting_customers keep_order ex_tagged) = Inr [(1, 4)]"
proof -
  have a: "compute_customer_time_in_store ex_tagged = Inl IndexError"
    using compute_customer_time_in_store_result [OF sorted_ex_tagged]
    by (simp add: ex_tagged_def has_row_def)
  have s: "sorted (map (\<lambda>p. timestamp (snd p)) (filter_non_exiting_customers keep_order ex_tagged))"
    by (rule sorted_filter_non_exiting_customers)
  have b: "compute_customer_time_in_store (filter_non_exiting_customers keep_order ex_tagged) = Inr [(1, 4)]"
    using compute_customer_time_in_store_result [OF s]
    by (simp add: filter_ex_tagged has_row_def earliest_def)
  from a b s sorted_ex_tagged show ?thesis by simp
qed

section \<open>Customers by location\<close>

lemma select_columns_present:
  "select_columns (map (\<lambda>l. (l, g l)) locs) ls =
     (if set ls \<subseteq> set locs then Inr (map (\<lambda>l. (l, g l)) ls) else Inl KeyError)"
  by (induction ls) (simp_all add: map_of_map_restrict restrict_map_def)

lemma size_unstack_count:
  "size_unstack df =
     \<lparr>index = sort (remdups (map (\<lambda>p. timestamp (snd p)) df)),
      columns = map (\<lambda>l. (l, map (\<lambda>t. count_at df t l) (sort (remdups (map (\<lambda>p. timestamp (snd p)) df)))))
                  (sort (remdups (map (\<lambda>p. location (snd p)) df)))\<rparr>"
  by (simp add: size_unstack_def Let_def count_at_def comp_def filter_map)

text \<open>
  C6, as stated, fails: a requested location that does not occur in the table is not a
  column of the table of sizes, and selecting it raises KeyError.
\<close>

theorem missing_location_counterexample:
  "customers_by_location ex_dairy [''spices''] = Inl KeyError"
  by (simp add: customers_by_location_def size_unstack_def ex_dairy_def)

text \<open>
  C6, amended. When every requested location occurs in the table,
  \<^verbatim>\<open>customers_by_location\<close> returns, indexed by the timestamps of the table in ascending
  order, one column of counts per requested location in the requested order; when a
  requested location does not occur in the table, it fails with KeyError.
\<close>

theorem customers_by_location_result:
  "customers_by_location df locations =
     (if set locations \<subseteq> set (map (\<lambda>p. location (snd p)) df)
      then Inr \<lparr>index = sort (remdups (map (\<lambda>p. timestamp (snd p)) df)),
               columns = map (\<lambda>l. (l, map (\<lambda>t. count_at df t l)
                                          (sort (remdups (map (\<lambda>p. timestamp (snd p)) df)))))
                           locations\<rparr>
      else Inl KeyError)"
  by (simp add: customers_by_location_def size_unstack_count select_columns_present)


theorem customers_by_location_result_witness:
  "customers_by_location ex_scans [''spices'', ''dairy'', ''spices'']
     = Inr \<lparr>index = [3, 5, 7, 9],
            columns = [(''spices'', [0, 1, 0, 0]), (''dairy'', [0, 0, 1, 0]),
                       (''spices'', [0, 1, 0, 0])]\<rparr>
   \<and> customers_by_location ex_scans [''spices'', ''dairy'', ''bread''] = Inl KeyError"
  using customers_by_location_result [of ex_scans "[''spices'', ''dairy'', ''spices'']"]
    customers_by_location_result [of ex_scans "[''spices'', ''dairy'', ''bread'']"]
  by (simp add: ex_scans_def count_at_def)

section \<open>The sum of the changes\<close>

lemma total_change_counts:
  assumes "\<And>p. p \<in> set df \<Longrightarrow>
             customer_count_change (snd p) = (if exit (snd p) then - 1 else if entry (snd p) then 1 else 0)"
  shows "total_change df =
           int (length (filter (\<lambda>p. entry (snd p) \<and> \<not> exit (snd p)) df))
           - int (length (filter (\<lambda>p. exit (snd p)) df))"
  using assms unfolding total_change_def by (induction df) simp_all

lemma length_filter_by_key:
  assumes "finite S" and "f ` set xs \<subseteq> S"
  shows "length (filter P xs) = (\<Sum>c \<in> S. length (filter (\<lambda>x. P x \<and> f x = c) xs))"
  using assms(2)
proof (induction xs)
  case Nil
  then show ?case by simp
next
  case (Cons x xs)
  then have IH: "length (filter P xs) = (\<Sum>c \<in> S. length (filter (\<lambda>x. P x \<and> f x = c) xs))"
    and mem: "f x \<in> S"
    by simp_all
  have "(\<Sum>c \<in> S. length (filter (\<lambda>y. P y \<and> f y = c) (x # xs)))
          = (\<Sum>c \<in> S. (if f x = c \<and> P x then 1 else 0)
                         + length (filter (\<lambda>y. P y \<and> f y = c) xs))"
    by (rule sum.cong) auto
  also have "\<dots> = (\<Sum>c \<in> S. if f x = c \<and> P x then 1 else 0) + length (filter P xs)"
    by (simp add: sum.distrib IH)
  also have "(\<Sum>c \<in> S. if f x = c \<and> P x then 1 else 0) = (if P x then 1 else (0::nat))"
    using assms(1) mem by (cases "P x") (simp_all add: sum.delta)
  finally show ?case by simp
qed

lemma customers_tag_from [simp]:
  "map (\<lambda>p. customer_no (snd p)) (tag_from seen ps) = map (\<lambda>p. customer_no (snd p)) ps"
  by (induction ps arbitrary: seen) simp_all

lemma one_entry_row:
  assumes "c \<in> set (map (\<lambda>p. customer_no (snd p)) (add_entry_exit ties df))"
  shows "length (filter (\<lambda>p. entry (snd p) \<and> customer_no (snd p) = c) (add_entry_exit ties df)) = 1"
proof -
  from assms have "c \<in> set (map (\<lambda>p. customer_no (snd p)) (sort_values ties df))"
    by (simp add: add_entry_exit_rows)
  then have ne: "rows_of c (sort_values ties df) \<noteq> []"
    by (auto simp: rows_of_def filter_empty_conv)
  have "length (untag (filter (\<lambda>p. entry (snd p)) (rows_of c (add_entry_exit ties df))))
          = length (take 1 (rows_of c (sort_values ties df)))"
    by (simp only: add_entry_exit_rows entry_rows_tag_from) simp
  also have "\<dots> = 1"
    using ne by (cases "rows_of c (sort_values ties df)") simp_all
  finally have "length (filter (\<lambda>p. entry (snd p)) (rows_of c (add_entry_exit ties df))) = 1"
    by (simp add: untag_def)
  then show ?thesis
    by (simp add: rows_of_def conj_commute)
qed

text \<open>
  C8, as stated, fails: a customer whose only row is at the checkout has entered and
  exited, and the changes of the tagged table sum to -1.
\<close>

theorem total_change_counterexample:
  "all_entered_and_exited (add_entry_exit keep_order ex_checkout)
   \<and> total_change (add_entry_exit keep_order ex_checkout) \<noteq> 0"
  by (simp add: all_entered_and_exited_def total_change_def has_row_def ex_checkout_def
      add_entry_exit_rows sort_values_keep_order tag_row_def scan.extend_def
      annotated.fields_def)

text \<open>
  C8, amended. For every tagged table in which every customer has exactly one exit row
  and no row is both an entry and an exit, the sum of \<^verbatim>\<open>customer_count_change\<close> over all
  rows is zero. This holds for every order of equal timestamps.
\<close>

theorem total_change_zero:
  assumes "exits_once_after_entry (add_entry_exit ties df)"
  shows "total_change (add_entry_exit ties df) = 0"
proof -
  let ?t = "add_entry_exit ties df"
  let ?S = "set (map (\<lambda>p. customer_no (snd p)) ?t)"
  from assms have once: "\<And>c. c \<in> ?S \<Longrightarrow>
      length (filter (\<lambda>p. exit (snd p) \<and> customer_no (snd p) = c) ?t) = 1"
    and excl: "\<And>p. p \<in> set ?t \<Longrightarrow> \<not> (entry (snd p) \<and> exit (snd p))"
    by (auto simp: exits_once_after_entry_def list_all_iff rows_of_def conj_commute)
  have ch: "\<And>p. p \<in> set ?t \<Longrightarrow>
      customer_count_change (snd p) = (if exit (snd p) then - 1 else if entry (snd p) then 1 else 0)"
    using tag_from_change [of _ _ "[]" "sort_values ties df"]
    by (metis add_entry_exit_rows prod.collapse)
  have "filter (\<lambda>p. entry (snd p) \<and> \<not> exit (snd p)) ?t = filter (\<lambda>p. entry (snd p)) ?t"
    by (rule filter_cong) (use excl in auto)
  then have "length (filter (\<lambda>p. entry (snd p) \<and> \<not> exit (snd p)) ?t)
               = length (filter (\<lambda>p. entry (snd p)) ?t)"
    by simp
  also have "\<dots> = (\<Sum>c \<in> ?S. length (filter (\<lambda>p. entry (snd p) \<and> customer_no (snd p) = c) ?t))"
    by (rule length_filter_by_key) auto
  also have "\<dots> = (\<Sum>c \<in> ?S. 1)"
    by (rule sum.cong) (simp_all only: one_entry_row)
  also have "\<dots> = (\<Sum>c \<in> ?S. length (filter (\<lambda>p. exit (snd p) \<and> customer_no (snd p) = c) ?t))"
    by (rule sum.cong) (simp_all only: once)
  also have "\<dots> = length (filter (\<lambda>p. exit (snd p)) ?t)"
    by (rule length_filter_by_key [symmetric]) auto
  finally show ?thesis
    by (simp add: total_change_counts [OF ch])
qed

theorem total_change_zero_witness:
  "exits_once_after_entry (add_entry_exit keep_order ex_visits)
   \<and> total_change (add_entry_exit keep_order ex_visits) = 0"
proof -
  have h: "exits_once_after_entry (add_entry_exit keep_order ex_visits)"
    by (simp add: tagged_ex_visits exits_once_after_entry_def)
  from total_change_zero [OF h] h show ?thesis by simp
qed

section \<open>The transition matrix\<close>

text \<open>
  C5 is about \<^verbatim>\<open>get_transition_matrix\<close>, which reads the data files, calls
  \<^verbatim>\<open>add_entrance_location\<close> (imported from the data module, which does not define it)
  and normalises the rows of a table of counts in floating point. Its row sums are
  properties of floating-point division and are not stated here.
\<close>

end
